theory Spec2Isabelle
  imports Main "HOL-Library.Sublist" "HOL-Library.AList"
begin

section \<open>The scan-and-propagate pipeline of scan.py\<close>

text \<open>
  The handler of \<^verbatim>\<open>scan.py\<close> is glue between external collaborators: the object store,
  the scan engine, the notification topic, the webhook, the metrics service and the local
  file system. The embedding threads an explicit world through every function. The world
  records the local files, the tag sets and metadata of the stored objects, the ordered
  list of calls made to collaborators, and the number of clock reads. Whether a call to a
  collaborator raises, and what the scan engine answers, is decided by the environment, a
  parameter of every function; so are the constants of \<^verbatim>\<open>common.py\<close>.

  Strings are byte strings: \<^verbatim>\<open>.encode('utf8')\<close> is the identity of the model. The decoded
  inner message is a dictionary from strings to strings, the shape the event interface
  gives it. The \<^verbatim>\<open>print\<close> statements write diagnostics to standard output and are not
  part of the model.
\<close>

subsection \<open>Errors and the inbound event\<close>

datatype error =
    KeyError string
  | IndexError
  | ValueError
  | Exception string
  | OSError
  | CollaboratorError string

record sns =
  Message :: string

record notification =
  Sns :: sns

record event =
  Records :: "notification list"

record s3_object =
  bucket_name :: string
  key :: string

type_synonym tag = "string \<times> string"

datatype jsonv = JStr string | JBool bool

subsection \<open>Calls to collaborators\<close>

datatype call =
    Post string "(string \<times> jsonv) list" string
  | Patch string "(string \<times> jsonv) list" string
  | CreateDir string
  | DownloadFile string string string
  | UpdateDefs string string
  | ScanFile string
  | HeadObject string string
  | CopyObject string string string "(string \<times> string) list"
  | GetObjectTagging string string
  | PutObjectTagging string string "tag list"
  | SnsPublish string "(string \<times> string) list"
  | MetricsSend string string string string
  | OsRemove string

record env =
  ENV :: string
  AV_STATUS_METADATA :: string
  AV_TIMESTAMP_METADATA :: string
  AV_STATUS_SNS_ARN :: "string option"
  AV_DEFINITION_S3_BUCKET :: string
  AV_DEFINITION_S3_PREFIX :: string
  AV_UPDATE_METADATA :: bool
  json_loads :: "string \<Rightarrow> error + (string \<rightharpoonup> string)"
  clock :: "nat \<Rightarrow> string"
  raises :: "call \<Rightarrow> error option"
  clamscan :: "string \<Rightarrow> string \<times> string"

record world =
  files :: "string set"
  tagging :: "string \<times> string \<Rightarrow> tag list"
  objmeta :: "string \<times> string \<Rightarrow> string \<times> (string \<times> string) list"
  calls :: "call list"
  ticks :: nat

subsection \<open>Sequencing with exceptions\<close>

definition and_then ::
  "('s \<Rightarrow> (error + 'a) \<times> 's) \<Rightarrow> ('a \<Rightarrow> 's \<Rightarrow> (error + 'b) \<times> 's) \<Rightarrow> 's \<Rightarrow> (error + 'b) \<times> 's" where
  "and_then f g s = (case f s of (Inl e, s') \<Rightarrow> (Inl e, s') | (Inr x, s') \<Rightarrow> g x s')"

definition return :: "'a \<Rightarrow> 's \<Rightarrow> (error + 'a) \<times> 's" where
  "return x s = (Inr x, s)"

definition lift :: "error + 'a \<Rightarrow> 's \<Rightarrow> (error + 'a) \<times> 's" where
  "lift r s = (r, s)"

text \<open>A call to a collaborator is recorded, then raises or returns as the environment says.\<close>

definition call_ext :: "env \<Rightarrow> call \<Rightarrow> world \<Rightarrow> (error + unit) \<times> world" where
  "call_ext env c w =
     (case raises env c of
        Some e \<Rightarrow> (Inl e, w\<lparr>calls := calls w @ [c]\<rparr>)
      | None \<Rightarrow> (Inr (), w\<lparr>calls := calls w @ [c]\<rparr>))"

text \<open>\<^verbatim>\<open>datetime.utcnow().strftime(...)\<close>: the n-th read of the clock, already formatted.\<close>

definition utcnow :: "env \<Rightarrow> world \<Rightarrow> (error + string) \<times> world" where
  "utcnow env w = (Inr (clock env (ticks w)), w\<lparr>ticks := Suc (ticks w)\<rparr>)"

subsection \<open>Library functions of Python 2.7 used by the source\<close>

text \<open>\<^verbatim>\<open>urllib.unquote\<close> on a byte string: a percent sign followed by two hexadecimal
  digits is the byte they denote, every other character stands for itself.\<close>

definition hex_digit :: "char \<Rightarrow> nat option" where
  "hex_digit c =
     (let n = (of_char c :: nat) in
      if 48 \<le> n \<and> n \<le> 57 then Some (n - 48)
      else if 65 \<le> n \<and> n \<le> 70 then Some (n - 55)
      else if 97 \<le> n \<and> n \<le> 102 then Some (n - 87)
      else None)"

fun unquote :: "string \<Rightarrow> string" where
  "unquote (c # a # b # rest) =
     (if c = CHR ''%'' then
        (case (hex_digit a, hex_digit b) of
           (Some h, Some l) \<Rightarrow> char_of (16 * h + l) # unquote rest
         | _ \<Rightarrow> c # unquote (a # b # rest))
      else c # unquote (a # b # rest))"
| "unquote cs = cs"

text \<open>\<^verbatim>\<open>urllib.unquote_plus\<close>: \<^verbatim>\<open>s = s.replace('+', ' '); return unquote(s)\<close>.\<close>

definition plus_to_space :: "string \<Rightarrow> string" where
  "plus_to_space s = map (\<lambda>c. if c = CHR ''+'' then CHR '' '' else c) s"

definition unquote_plus :: "string \<Rightarrow> string" where
  "unquote_plus s = unquote (plus_to_space s)"

text \<open>\<^verbatim>\<open>str.replace(old, new)\<close>: the occurrences of \<^verbatim>\<open>old\<close> are found from left to right
  and do not overlap.\<close>

function replace :: "string \<Rightarrow> string \<Rightarrow> string \<Rightarrow> string" where
  "replace old new [] = (if old = [] then new else [])"
| "replace old new (c # cs) =
     (if old = [] then new @ c # replace old new cs
      else if prefix old (c # cs) then new @ replace old new (drop (length old) (c # cs))
      else c # replace old new cs)"
  by pat_completeness auto
termination
  by (relation "measure (\<lambda>(old, new, s). length s)") auto

text \<open>\<^verbatim>\<open>os.path.basename\<close> and \<^verbatim>\<open>os.path.dirname\<close> of posixpath.\<close>

definition basename :: "string \<Rightarrow> string" where
  "basename p = rev (takeWhile (\<lambda>c. c \<noteq> CHR ''/'') (rev p))"

definition dirname :: "string \<Rightarrow> string" where
  "dirname p =
     (let head = rev (dropWhile (\<lambda>c. c \<noteq> CHR ''/'') (rev p)) in
      if head \<noteq> [] \<and> head \<noteq> replicate (length head) (CHR ''/'')
      then rev (dropWhile (\<lambda>c. c = CHR ''/'') (rev head))
      else head)"

subsection \<open>Decoding the event\<close>

text \<open>\<^verbatim>\<open>json.loads(event['Records'][0]['Sns']['Message'])\<close>, the expression both decoding
  functions start with.\<close>

definition first_message :: "env \<Rightarrow> event \<Rightarrow> error + (string \<rightharpoonup> string)" where
  "first_message env ev =
     (case Records ev of
        [] \<Rightarrow> Inl IndexError
      | r # _ \<Rightarrow> json_loads env (Message (Sns r)))"

definition getitem :: "(string \<rightharpoonup> string) \<Rightarrow> string \<Rightarrow> error + string" where
  "getitem d k = (case d k of None \<Rightarrow> Inl (KeyError k) | Some v \<Rightarrow> Inr v)"

definition event_object :: "env \<Rightarrow> event \<Rightarrow> error + s3_object" where
  "event_object env ev =
     (case first_message env ev of
        Inl e \<Rightarrow> Inl e
      | Inr message \<Rightarrow>
          (case getitem message ''bucket'' of
             Inl e \<Rightarrow> Inl e
           | Inr bucket \<Rightarrow>
               (case getitem message ''key'' of
                  Inl e \<Rightarrow> Inl e
                | Inr k \<Rightarrow>
                    (let key = unquote_plus k in
                     if bucket = [] \<or> key = []
                     then Inl (Exception ''Unable to retrieve object from event.'')
                     else Inr \<lparr>bucket_name = bucket, key = key\<rparr>))))"

definition event_webhook :: "env \<Rightarrow> event \<Rightarrow> error + (string \<times> string)" where
  "event_webhook env ev =
     (case first_message env ev of
        Inl e \<Rightarrow> Inl e
      | Inr message \<Rightarrow>
          (case getitem message ''webhook'' of
             Inl e \<Rightarrow> Inl e
           | Inr wh \<Rightarrow>
               (let webhook = replace '':service'' ''antivirus'' (unquote_plus wh) in
                case getitem message ''auth'' of
                  Inl e \<Rightarrow> Inl e
                | Inr auth \<Rightarrow>
                    if webhook = []
                    then Inl (Exception ''Unable to retrieve webhook from event.'')
                    else Inr (webhook, auth))))"

subsection \<open>Fetching the object\<close>

definition download_file :: "env \<Rightarrow> s3_object \<Rightarrow> string \<Rightarrow> world \<Rightarrow> (error + unit) \<times> world" where
  "download_file env obj local_path w =
     (case call_ext env (DownloadFile (bucket_name obj) (key obj) local_path) w of
        (Inl e, w') \<Rightarrow> (Inl e, w')
      | (Inr _, w') \<Rightarrow> (Inr (), w'\<lparr>files := insert local_path (files w')\<rparr>))"

definition download_s3_object ::
  "env \<Rightarrow> s3_object \<Rightarrow> string \<Rightarrow> world \<Rightarrow> (error + string) \<times> world" where
  "download_s3_object env obj local_prefix =
     (let local_path = local_prefix @ ''/'' @ bucket_name obj @ ''/'' @ key obj in
      and_then (call_ext env (CreateDir (dirname local_path))) (\<lambda>_.
      and_then (download_file env obj local_path) (\<lambda>_.
      return local_path)))"

subsection \<open>The scan engine\<close>

text \<open>\<^verbatim>\<open>clamav.update_defs_from_s3\<close> and \<^verbatim>\<open>clamav.scan_file\<close> are opaque: each is a call
  that may raise; a scan that returns gives the verdict and the diagnostic text that the
  environment holds for the path.\<close>

definition update_defs_from_s3 :: "env \<Rightarrow> string \<Rightarrow> string \<Rightarrow> world \<Rightarrow> (error + unit) \<times> world" where
  "update_defs_from_s3 env bucket pfx = call_ext env (UpdateDefs bucket pfx)"

definition scan_file :: "env \<Rightarrow> string \<Rightarrow> world \<Rightarrow> (error + string \<times> string) \<times> world" where
  "scan_file env path =
     and_then (call_ext env (ScanFile path)) (\<lambda>_. return (clamscan env path))"

subsection \<open>The sinks\<close>

definition head_object ::
  "env \<Rightarrow> s3_object \<Rightarrow> world \<Rightarrow> (error + string \<times> (string \<times> string) list) \<times> world" where
  "head_object env obj w =
     (case call_ext env (HeadObject (bucket_name obj) (key obj)) w of
        (Inl e, w') \<Rightarrow> (Inl e, w')
      | (Inr _, w') \<Rightarrow> (Inr (objmeta w' (bucket_name obj, key obj)), w'))"

definition copy_object ::
  "env \<Rightarrow> s3_object \<Rightarrow> string \<Rightarrow> (string \<times> string) list \<Rightarrow> world \<Rightarrow> (error + unit) \<times> world" where
  "copy_object env obj content_type metadata w =
     (case call_ext env (CopyObject (bucket_name obj) (key obj) content_type metadata) w of
        (Inl e, w') \<Rightarrow> (Inl e, w')
      | (Inr _, w') \<Rightarrow>
          (Inr (), w'\<lparr>objmeta := (objmeta w')((bucket_name obj, key obj) := (content_type, metadata))\<rparr>))"

definition set_av_metadata :: "env \<Rightarrow> s3_object \<Rightarrow> string \<Rightarrow> world \<Rightarrow> (error + unit) \<times> world" where
  "set_av_metadata env obj result =
     and_then (head_object env obj) (\<lambda>(content_type, metadata).
     and_then (utcnow env) (\<lambda>now.
     copy_object env obj content_type
       (AList.update (AV_TIMESTAMP_METADATA env) now
         (AList.update (AV_STATUS_METADATA env) result metadata))))"

definition get_object_tagging :: "env \<Rightarrow> s3_object \<Rightarrow> world \<Rightarrow> (error + tag list) \<times> world" where
  "get_object_tagging env obj w =
     (case call_ext env (GetObjectTagging (bucket_name obj) (key obj)) w of
        (Inl e, w') \<Rightarrow> (Inl e, w')
      | (Inr _, w') \<Rightarrow> (Inr (tagging w' (bucket_name obj, key obj)), w'))"

definition put_object_tagging :: "env \<Rightarrow> s3_object \<Rightarrow> tag list \<Rightarrow> world \<Rightarrow> (error + unit) \<times> world" where
  "put_object_tagging env obj tags w =
     (case call_ext env (PutObjectTagging (bucket_name obj) (key obj) tags) w of
        (Inl e, w') \<Rightarrow> (Inl e, w')
      | (Inr _, w') \<Rightarrow>
          (Inr (), w'\<lparr>tagging := (tagging w')((bucket_name obj, key obj) := tags)\<rparr>))"

text \<open>The loop of \<^verbatim>\<open>set_av_tags\<close>: it runs over the tags read, and removes from the copy
  the first tag equal to each tag whose key is one of the two keys.\<close>

definition strip_av_tags :: "env \<Rightarrow> tag list \<Rightarrow> tag list" where
  "strip_av_tags env curr_tags =
     fold (\<lambda>tag new_tags.
             if fst tag \<in> set [AV_STATUS_METADATA env, AV_TIMESTAMP_METADATA env]
             then remove1 tag new_tags else new_tags)
          curr_tags curr_tags"

definition set_av_tags :: "env \<Rightarrow> s3_object \<Rightarrow> string \<Rightarrow> world \<Rightarrow> (error + unit) \<times> world" where
  "set_av_tags env obj result =
     and_then (get_object_tagging env obj) (\<lambda>curr_tags.
     and_then (utcnow env) (\<lambda>now.
     put_object_tagging env obj
       (strip_av_tags env curr_tags
          @ [(AV_STATUS_METADATA env, result)] @ [(AV_TIMESTAMP_METADATA env, now)])))"

text \<open>The topic sink publishes the message dictionary; its serialisation by
  \<^verbatim>\<open>json.dumps\<close> is not modelled.\<close>

definition sns_scan_results :: "env \<Rightarrow> s3_object \<Rightarrow> string \<Rightarrow> world \<Rightarrow> (error + unit) \<times> world" where
  "sns_scan_results env obj result =
     (case AV_STATUS_SNS_ARN env of
        None \<Rightarrow> return ()
      | Some arn \<Rightarrow>
          and_then (utcnow env) (\<lambda>now.
          call_ext env (SnsPublish arn
            (AList.update (AV_TIMESTAMP_METADATA env) now
              (AList.update (AV_STATUS_METADATA env) result
                [(''bucket'', bucket_name obj), (''key'', key obj)])))))"

definition webhook_scan_started ::
  "env \<Rightarrow> s3_object \<Rightarrow> string \<Rightarrow> string \<Rightarrow> world \<Rightarrow> (error + unit) \<times> world" where
  "webhook_scan_started env obj webhook auth =
     (if webhook = [] then return ()
      else call_ext env (Post webhook [] auth))"

definition webhook_scan_results ::
  "env \<Rightarrow> s3_object \<Rightarrow> string \<Rightarrow> string \<Rightarrow> string \<Rightarrow> string \<Rightarrow> world \<Rightarrow> (error + unit) \<times> world" where
  "webhook_scan_results env obj result output webhook auth =
     (if webhook = [] then return ()
      else
        (let (is_infected, details) =
               (if result = ''INFECTED'' then (True, ''INFECTED: '' @ output)
                else (False, ''clean''))
         in call_ext env (Patch webhook
              [(''filename'', JStr (basename (key obj))),
               (''is_infected'', JBool is_infected),
               (''status'', JStr ''success''),
               (''result'', JStr details)] auth)))"

definition metrics_send ::
  "env \<Rightarrow> string \<Rightarrow> string \<Rightarrow> string \<Rightarrow> string \<Rightarrow> world \<Rightarrow> (error + unit) \<times> world" where
  "metrics_send env e bucket k status = call_ext env (MetricsSend e bucket k status)"

subsection \<open>The handler\<close>

text \<open>\<^verbatim>\<open>os.remove\<close> deletes the file and returns, or raises \<^verbatim>\<open>OSError\<close>: when the path does
  not exist, and when the removal of an existing path is refused (a directory, a permission),
  which the environment decides. The handler swallows that error.\<close>

definition os_remove :: "env \<Rightarrow> string \<Rightarrow> world \<Rightarrow> (error + unit) \<times> world" where
  "os_remove env path w =
     (if path \<in> files w \<and> raises env (OsRemove path) = None
      then (Inr (), w\<lparr>files := files w - {path}, calls := calls w @ [OsRemove path]\<rparr>)
      else (Inl OSError, w\<lparr>calls := calls w @ [OsRemove path]\<rparr>))"

definition try_os_remove :: "env \<Rightarrow> string \<Rightarrow> world \<Rightarrow> (error + unit) \<times> world" where
  "try_os_remove env path w =
     (case os_remove env path w of
        (Inl OSError, w') \<Rightarrow> (Inr (), w')
      | r \<Rightarrow> r)"

definition lambda_handler :: "env \<Rightarrow> event \<Rightarrow> world \<Rightarrow> (error + unit) \<times> world" where
  "lambda_handler env ev =
     and_then (utcnow env) (\<lambda>start_time.
     and_then (lift (event_object env ev)) (\<lambda>obj.
     and_then (lift (event_webhook env ev)) (\<lambda>(webhook, auth).
     and_then (webhook_scan_started env obj webhook auth) (\<lambda>_.
     and_then (download_s3_object env obj ''/tmp'') (\<lambda>file_path.
     and_then (update_defs_from_s3 env (AV_DEFINITION_S3_BUCKET env) (AV_DEFINITION_S3_PREFIX env)) (\<lambda>_.
     and_then (scan_file env file_path) (\<lambda>(scan_result, scan_output).
     and_then (if AV_UPDATE_METADATA env then set_av_metadata env obj scan_result else return ()) (\<lambda>_.
     and_then (set_av_tags env obj scan_result) (\<lambda>_.
     and_then (sns_scan_results env obj scan_result) (\<lambda>_.
     and_then (webhook_scan_results env obj scan_result scan_output webhook auth) (\<lambda>_.
     and_then (metrics_send env (ENV env) (bucket_name obj) (key obj) scan_result) (\<lambda>_.
     and_then (try_os_remove env file_path) (\<lambda>_.
     and_then (utcnow env) (\<lambda>_.
     return ()))))))))))))))"

subsection \<open>Vocabulary of the properties\<close>

text \<open>The local path of the artifact that \<^verbatim>\<open>lambda_handler\<close> asks \<^verbatim>\<open>download_s3_object\<close> for.\<close>

definition artifact_path :: "s3_object \<Rightarrow> string" where
  "artifact_path obj = ''/tmp'' @ ''/'' @ bucket_name obj @ ''/'' @ key obj"

text \<open>The calls up to the scan, in the order of the handler.\<close>

definition fetch_calls :: "env \<Rightarrow> s3_object \<Rightarrow> string \<Rightarrow> string \<Rightarrow> call list" where
  "fetch_calls env obj webhook auth =
     [Post webhook [] auth,
      CreateDir (dirname (artifact_path obj)),
      DownloadFile (bucket_name obj) (key obj) (artifact_path obj),
      UpdateDefs (AV_DEFINITION_S3_BUCKET env) (AV_DEFINITION_S3_PREFIX env),
      ScanFile (artifact_path obj)]"

text \<open>The calls that the metadata, tag, topic and webhook-result sinks make.\<close>

definition publish_call :: "call \<Rightarrow> bool" where
  "publish_call c =
     (case c of
        HeadObject _ _ \<Rightarrow> True
      | CopyObject _ _ _ _ \<Rightarrow> True
      | GetObjectTagging _ _ \<Rightarrow> True
      | PutObjectTagging _ _ _ \<Rightarrow> True
      | SnsPublish _ _ \<Rightarrow> True
      | Patch _ _ _ \<Rightarrow> True
      | _ \<Rightarrow> False)"

definition is_scan :: "call \<Rightarrow> bool" where
  "is_scan c = (case c of ScanFile _ \<Rightarrow> True | _ \<Rightarrow> False)"

definition is_metrics :: "call \<Rightarrow> bool" where
  "is_metrics c = (case c of MetricsSend _ _ _ _ \<Rightarrow> True | _ \<Rightarrow> False)"

definition is_remove :: "call \<Rightarrow> bool" where
  "is_remove c = (case c of OsRemove _ \<Rightarrow> True | _ \<Rightarrow> False)"

text \<open>Every call of a list returned; the last call of a list raised \<open>e\<close> and the calls
  before it returned.\<close>

definition all_returned :: "env \<Rightarrow> call list \<Rightarrow> bool" where
  "all_returned env cs = list_all (\<lambda>c. raises env c = None) cs"

definition raised_at_last :: "env \<Rightarrow> error \<Rightarrow> call list \<Rightarrow> bool" where
  "raised_at_last env e cs \<longleftrightarrow>
     cs \<noteq> [] \<and> raises env (last cs) = Some e \<and> all_returned env (butlast cs)"

definition call_outcome :: "env \<Rightarrow> error + 'a \<Rightarrow> call list \<Rightarrow> bool" where
  "call_outcome env r cs =
     (case r of Inl e \<Rightarrow> raised_at_last env e cs | Inr _ \<Rightarrow> all_returned env cs)"

text \<open>The body of the webhook-result request for a verdict and its diagnostic text.\<close>

definition webhook_message :: "s3_object \<Rightarrow> string \<Rightarrow> string \<Rightarrow> (string \<times> jsonv) list" where
  "webhook_message obj v out =
     [(''filename'', JStr (basename (key obj))),
      (''is_infected'', JBool (v = ''INFECTED'')),
      (''status'', JStr ''success''),
      (''result'', JStr (if v = ''INFECTED'' then ''INFECTED: '' @ out else ''clean''))]"

text \<open>What a call hands to a sink for the verdict \<open>v\<close>: the status written to the
  metadata, to the tag set, to the topic and to the metrics is the string \<open>v\<close> itself; the
  webhook-result request holds no status string, its body is the one computed from \<open>v\<close>
  and the diagnostic text. Calls that carry no verdict satisfy it.\<close>

definition delivered :: "env \<Rightarrow> s3_object \<Rightarrow> string \<Rightarrow> string \<Rightarrow> call \<Rightarrow> bool" where
  "delivered env obj v out c =
     (case c of
        CopyObject b k ct md \<Rightarrow> map_of md (AV_STATUS_METADATA env) = Some v
      | PutObjectTagging b k tags \<Rightarrow>
          filter (\<lambda>t. fst t = AV_STATUS_METADATA env) tags = [(AV_STATUS_METADATA env, v)]
      | SnsPublish arn msg \<Rightarrow> map_of msg (AV_STATUS_METADATA env) = Some v
      | Patch url body auth \<Rightarrow> body = webhook_message obj v out
      | MetricsSend e b k s \<Rightarrow> s = v
      | _ \<Rightarrow> True)"

definition sink_call :: "env \<Rightarrow> s3_object \<Rightarrow> string \<Rightarrow> string \<Rightarrow> call \<Rightarrow> bool" where
  "sink_call env obj v out c \<longleftrightarrow>
     publish_call c \<and>
     (AV_STATUS_METADATA env \<noteq> AV_TIMESTAMP_METADATA env \<longrightarrow> delivered env obj v out c)"

subsection \<open>Example events, environments and worlds\<close>

definition message_full :: "string \<rightharpoonup> string" where
  "message_full =
     [''bucket'' \<mapsto> ''b'', ''key'' \<mapsto> ''a+b'',
      ''webhook'' \<mapsto> ''https://x/:service'', ''auth'' \<mapsto> ''tok'']"

definition message_no_webhook :: "string \<rightharpoonup> string" where
  "message_no_webhook = [''bucket'' \<mapsto> ''b'', ''key'' \<mapsto> ''clean.txt'']"

definition message_no_bucket :: "string \<rightharpoonup> string" where
  "message_no_bucket =
     [''key'' \<mapsto> ''clean.txt'', ''webhook'' \<mapsto> ''https://x/:service'', ''auth'' \<mapsto> ''tok'']"

text \<open>A table standing for \<^verbatim>\<open>json.loads\<close> on the three message texts of the examples.\<close>

definition json_loads_example :: "string \<Rightarrow> error + (string \<rightharpoonup> string)" where
  \<open>json_loads_example s =
     (if s = ''{"bucket": "b", "key": "a+b", "webhook": "https://x/:service", "auth": "tok"}''
      then Inr message_full
      else if s = ''{"bucket": "b", "key": "clean.txt"}''
      then Inr message_no_webhook
      else if s = ''{"key": "clean.txt", "webhook": "https://x/:service", "auth": "tok"}''
      then Inr message_no_bucket
      else Inl ValueError)\<close>

definition record_full :: notification where
  \<open>record_full = \<lparr>Sns = \<lparr>Message =
     ''{"bucket": "b", "key": "a+b", "webhook": "https://x/:service", "auth": "tok"}''\<rparr>\<rparr>\<close>

definition record_no_webhook :: notification where
  \<open>record_no_webhook = \<lparr>Sns = \<lparr>Message = ''{"bucket": "b", "key": "clean.txt"}''\<rparr>\<rparr>\<close>

definition record_no_bucket :: notification where
  \<open>record_no_bucket = \<lparr>Sns = \<lparr>Message =
     ''{"key": "clean.txt", "webhook": "https://x/:service", "auth": "tok"}''\<rparr>\<rparr>\<close>

definition event_full :: event where
  "event_full = \<lparr>Records = [record_full]\<rparr>"

definition event_no_webhook :: event where
  "event_no_webhook = \<lparr>Records = [record_no_webhook]\<rparr>"

definition event_no_bucket :: event where
  "event_no_bucket = \<lparr>Records = [record_no_bucket]\<rparr>"

definition object_full :: s3_object where
  "object_full = \<lparr>bucket_name = ''b'', key = ''a b''\<rparr>"

text \<open>Every collaborator answers; the scan engine finds the file clean.\<close>

definition env_example :: env where
  "env_example =
     \<lparr>ENV = ''prod'', AV_STATUS_METADATA = ''av-status'',
      AV_TIMESTAMP_METADATA = ''av-timestamp'', AV_STATUS_SNS_ARN = Some ''arn:topic'',
      AV_DEFINITION_S3_BUCKET = ''defs'', AV_DEFINITION_S3_PREFIX = ''clamav_defs'',
      AV_UPDATE_METADATA = True, json_loads = json_loads_example,
      clock = (\<lambda>n. ''2026/01/01 00:00:00 UTC''), raises = (\<lambda>c. None),
      clamscan = (\<lambda>p. (''CLEAN'', []))\<rparr>"

text \<open>The scan engine raises.\<close>

definition env_scan_raises :: env where
  "env_scan_raises =
     env_example\<lparr>raises := (\<lambda>c. if is_scan c then Some (CollaboratorError ''clamscan'') else None)\<rparr>"

text \<open>The metrics service raises.\<close>

definition env_metrics_raises :: env where
  "env_metrics_raises =
     env_example\<lparr>raises := (\<lambda>c. if is_metrics c then Some (CollaboratorError ''metrics'') else None)\<rparr>"

text \<open>The scan engine answers with the verdict \<open>ERROR\<close>.\<close>

definition env_scan_error :: env where
  "env_scan_error = env_example\<lparr>clamscan := (\<lambda>p. (''ERROR'', ''cannot open file''))\<rparr>"

text \<open>The removal of the artifact is refused.\<close>

definition env_remove_raises :: env where
  "env_remove_raises =
     env_example\<lparr>raises := (\<lambda>c. if is_remove c then Some OSError else None)\<rparr>"

definition world_example :: world where
  "world_example =
     \<lparr>files = {}, tagging = (\<lambda>_. []), objmeta = (\<lambda>_. (''text/plain'', [])), calls = [], ticks = 0\<rparr>"

text \<open>An object that carries a foreign tag and the tags of two earlier scans.\<close>

definition world_tagged :: world where
  "world_tagged =
     world_example\<lparr>tagging := (\<lambda>_.
        [(''owner'', ''me''), (''av-status'', ''INFECTED''),
         (''av-timestamp'', ''2025/12/31 23:59:59 UTC''), (''av-status'', ''INFECTED'')])\<rparr>"

section \<open>Auxiliary facts\<close>

subsection \<open>Sequencing\<close>

lemma and_thenE:
  assumes "and_then f g w = (r, w')"
  obtains (raised) e where "f w = (Inl e, w')" "r = Inl e"
        | (returned) x w1 where "f w = (Inr x, w1)" "g x w1 = (r, w')"
  using assms by (auto simp: and_then_def split: prod.splits sum.splits)

lemma call_ext_iff:
  "call_ext env c w = (r, w') \<longleftrightarrow>
     w' = w\<lparr>calls := calls w @ [c]\<rparr> \<and> r = (case raises env c of Some e \<Rightarrow> Inl e | None \<Rightarrow> Inr ())"
  by (auto simp: call_ext_def split: option.splits)

lemma utcnow_iff:
  "utcnow env w = (r, w') \<longleftrightarrow> r = Inr (clock env (ticks w)) \<and> w' = w\<lparr>ticks := Suc (ticks w)\<rparr>"
  by (auto simp: utcnow_def)

lemma return_iff: "return x w = (r, w') \<longleftrightarrow> r = Inr x \<and> w' = w"
  by (auto simp: return_def)

lemma lift_iff: "lift v w = (r, w') \<longleftrightarrow> r = v \<and> w' = w"
  by (auto simp: lift_def)

lemma try_os_remove_iff:
  "try_os_remove env p w = (r, w') \<longleftrightarrow>
     r = Inr () \<and>
     w' = (if p \<in> files w \<and> raises env (OsRemove p) = None
           then w\<lparr>files := files w - {p}, calls := calls w @ [OsRemove p]\<rparr>
           else w\<lparr>calls := calls w @ [OsRemove p]\<rparr>)"
  by (auto simp: try_os_remove_def os_remove_def)

subsection \<open>The loop of the tag sink computes a filter\<close>

lemma filter_remove1_dropped: "\<not> Q a \<Longrightarrow> filter Q (remove1 a xs) = filter Q xs"
  by (induction xs) auto

lemma count_list_remove1:
  "count_list (remove1 a xs) x = (if x = a \<and> a \<in> set xs then count_list xs x - 1 else count_list xs x)"
  by (induction xs) auto

lemma fold_remove1_filter:
  "(\<And>x. P x \<Longrightarrow> count_list acc x = count_list xs x) \<Longrightarrow>
     fold (\<lambda>t new. if P t then remove1 t new else new) xs acc = filter (\<lambda>t. \<not> P t) acc"
proof (induction xs arbitrary: acc)
  case Nil
  have "\<And>x. x \<in> set acc \<Longrightarrow> \<not> P x"
  proof
    fix x assume "x \<in> set acc" "P x"
    with Nil[of x] show False by (simp add: count_list_0_iff)
  qed
  then show ?case by (simp add: filter_id_conv)
next
  case (Cons a xs)
  show ?case
  proof (cases "P a")
    case True
    from Cons.prems[OF True] have mem: "a \<in> set acc"
      by (metis count_list.simps(2) count_list_0_iff nat.simps(3) add_is_0 One_nat_def Suc_eq_plus1)
    have "fold (\<lambda>t new. if P t then remove1 t new else new) xs (remove1 a acc)
            = filter (\<lambda>t. \<not> P t) (remove1 a acc)"
    proof (rule Cons.IH)
      fix x assume "P x"
      from Cons.prems[OF this] mem show "count_list (remove1 a acc) x = count_list xs x"
        by (auto simp: count_list_remove1)
    qed
    with True show ?thesis by (simp add: filter_remove1_dropped)
  next
    case False
    have "fold (\<lambda>t new. if P t then remove1 t new else new) xs acc = filter (\<lambda>t. \<not> P t) acc"
    proof (rule Cons.IH)
      fix x assume "P x"
      from Cons.prems[OF this] False \<open>P x\<close> show "count_list acc x = count_list xs x"
        by auto
    qed
    with False show ?thesis by simp
  qed
qed

lemma strip_av_tags_filter:
  "strip_av_tags env tags =
     filter (\<lambda>t. fst t \<noteq> AV_STATUS_METADATA env \<and> fst t \<noteq> AV_TIMESTAMP_METADATA env) tags"
  unfolding strip_av_tags_def
  by (subst fold_remove1_filter) auto

subsection \<open>Calls that returned and calls that raised\<close>

lemma all_returned_Nil [simp]: "all_returned env []"
  by (simp add: all_returned_def)

lemma all_returned_Cons [simp]:
  "all_returned env (c # cs) \<longleftrightarrow> raises env c = None \<and> all_returned env cs"
  by (simp add: all_returned_def)

lemma all_returned_append [simp]:
  "all_returned env (a @ b) \<longleftrightarrow> all_returned env a \<and> all_returned env b"
  by (simp add: all_returned_def)

lemma raised_at_last_single [simp]: "raised_at_last env e [c] \<longleftrightarrow> raises env c = Some e"
  by (simp add: raised_at_last_def)

lemma raised_at_last_not_Nil [simp]: "\<not> raised_at_last env e []"
  by (simp add: raised_at_last_def)

lemma raised_at_last_append:
  "all_returned env a \<Longrightarrow> raised_at_last env e b \<Longrightarrow> raised_at_last env e (a @ b)"
  by (auto simp: raised_at_last_def butlast_append)

lemma raised_at_last_Cons:
  "raises env c = None \<Longrightarrow> raised_at_last env e cs \<Longrightarrow> raised_at_last env e (c # cs)"
  using raised_at_last_append[of env "[c]" e cs] by simp

lemma raised_at_last_Cons_Cons [simp]:
  "raised_at_last env e (c # d # cs) \<longleftrightarrow> raises env c = None \<and> raised_at_last env e (d # cs)"
  by (auto simp: raised_at_last_def)

lemma raised_at_last_snoc [simp]:
  "raised_at_last env e (cs @ [c]) \<longleftrightarrow> all_returned env cs \<and> raises env c = Some e"
  by (auto simp: raised_at_last_def)

lemma raised_not_returned: "raised_at_last env e cs \<Longrightarrow> \<not> all_returned env cs"
  by (auto simp: raised_at_last_def all_returned_def list_all_iff)

subsection \<open>What the sinks call\<close>

lemma set_av_metadata_grows:
  assumes "set_av_metadata env obj v w = (r, w')"
  shows "files w' = files w \<and>
     (\<exists>cs. calls w' = calls w @ cs \<and> list_all (sink_call env obj v out) cs
          \<and> call_outcome env r cs)"
  using assms
  by (auto simp: set_av_metadata_def head_object_def copy_object_def call_ext_iff utcnow_iff
      sink_call_def publish_call_def delivered_def update_conv' call_outcome_def
      split: prod.splits sum.splits option.splits elim!: and_thenE)

lemma set_av_tags_grows:
  assumes "set_av_tags env obj v w = (r, w')"
  shows "files w' = files w \<and>
     (\<exists>cs. calls w' = calls w @ cs \<and> list_all (sink_call env obj v out) cs
          \<and> call_outcome env r cs)"
  using assms
  by (auto simp: set_av_tags_def get_object_tagging_def put_object_tagging_def call_ext_iff
      utcnow_iff sink_call_def publish_call_def delivered_def strip_av_tags_filter
      filter_empty_conv call_outcome_def
      split: prod.splits sum.splits option.splits elim!: and_thenE)

lemma sns_scan_results_grows:
  assumes "sns_scan_results env obj v w = (r, w')"
  shows "files w' = files w \<and>
     (\<exists>cs. calls w' = calls w @ cs \<and> list_all (sink_call env obj v out) cs
          \<and> call_outcome env r cs)"
proof (cases "AV_STATUS_SNS_ARN env")
  case None
  with assms show ?thesis by (simp add: sns_scan_results_def return_iff call_outcome_def)
next
  case (Some arn)
  let ?c = "SnsPublish arn
      (AList.update (AV_TIMESTAMP_METADATA env) (clock env (ticks w))
        (AList.update (AV_STATUS_METADATA env) v
          [(''bucket'', bucket_name obj), (''key'', key obj)]))"
  from assms Some have run: "call_ext env ?c (w\<lparr>ticks := Suc (ticks w)\<rparr>) = (r, w')"
    by (simp add: sns_scan_results_def and_then_def utcnow_def)
  have sc: "sink_call env obj v out ?c"
    by (simp add: sink_call_def publish_call_def delivered_def update_conv')
  from run have w': "w' = w\<lparr>ticks := Suc (ticks w), calls := calls w @ [?c]\<rparr>"
    and r: "r = (case raises env ?c of Some e \<Rightarrow> Inl e | None \<Rightarrow> Inr ())"
    by (simp_all add: call_ext_iff)
  from r have "call_outcome env r [?c]"
    by (cases "raises env ?c") (simp_all add: call_outcome_def)
  with sc w' show ?thesis by (intro conjI exI[of _ "[?c]"]) simp_all
qed

lemma webhook_scan_results_grows:
  assumes "webhook_scan_results env obj v out webhook auth w = (r, w')"
  shows "files w' = files w \<and>
     (\<exists>cs. calls w' = calls w @ cs \<and> list_all (sink_call env obj v out) cs
          \<and> call_outcome env r cs)"
  using assms
  by (auto simp: webhook_scan_results_def call_ext_iff return_iff webhook_message_def
      sink_call_def publish_call_def delivered_def call_outcome_def
      split: if_splits option.splits)

lemma metadata_step_grows:
  assumes "(if AV_UPDATE_METADATA env then set_av_metadata env obj v else return ()) w = (r, w')"
  shows "files w' = files w \<and>
     (\<exists>cs. calls w' = calls w @ cs \<and> list_all (sink_call env obj v out) cs
          \<and> call_outcome env r cs)"
proof (cases "AV_UPDATE_METADATA env")
  case True
  with assms show ?thesis by (simp add: set_av_metadata_grows)
next
  case False
  with assms(1) show ?thesis by (simp add: return_iff call_outcome_def)
qed

lemma grows_chain:
  assumes "files w1 = files w" "calls w1 = calls w @ c1" "list_all P c1" "all_returned env c1"
    and "files w2 = files w1 \<and>
       (\<exists>cs. calls w2 = calls w1 @ cs \<and> list_all P cs \<and> call_outcome env r cs)"
  shows "files w2 = files w \<and>
       (\<exists>cs. calls w2 = calls w @ cs \<and> list_all P cs \<and> call_outcome env r cs)"
proof -
  from assms(5) obtain cs where cs: "files w2 = files w1" "calls w2 = calls w1 @ cs"
    "list_all P cs" "call_outcome env r cs" by blast
  from cs(4) assms(4) have "call_outcome env r (c1 @ cs)"
    by (cases r) (simp_all add: call_outcome_def raised_at_last_append)
  with cs assms(1,2,3) show ?thesis by (intro conjI exI[of _ "c1 @ cs"]) simp_all
qed

lemma publish_blockE:
  assumes run: "and_then (if AV_UPDATE_METADATA env then set_av_metadata env obj v else return ()) (\<lambda>_.
            and_then (set_av_tags env obj v) (\<lambda>_.
            and_then (sns_scan_results env obj v) (\<lambda>_.
            and_then (webhook_scan_results env obj v out webhook auth) k))) w = (r, w')"
  obtains (raised) e cs where "r = Inl e" "files w' = files w" "calls w' = calls w @ cs"
      "list_all (sink_call env obj v out) cs" "raised_at_last env e cs"
  | (returned) w1 cs where "files w1 = files w" "calls w1 = calls w @ cs"
      "list_all (sink_call env obj v out) cs" "all_returned env cs" "k () w1 = (r, w')"
proof -
  note g = metadata_step_grows[where out = out] set_av_tags_grows[where out = out]
    sns_scan_results_grows[where out = out] webhook_scan_results_grows
  have c0: "files w = files w" "calls w = calls w @ []"
    "list_all (sink_call env obj v out) []" "all_returned env []"
    by simp_all
  from run show thesis
  proof (cases rule: and_thenE)
    case (raised e)
    from grows_chain[OF c0 g(1)[OF raised(1)]] obtain cs where
      "files w' = files w" "calls w' = calls w @ cs" "list_all (sink_call env obj v out) cs"
      "raised_at_last env e cs" by (auto simp: call_outcome_def)
    with raised(2) show ?thesis by (rule that(1))
  next
    case r1: (returned x1 w1)
    from grows_chain[OF c0 g(1)[OF r1(1)]] obtain c1 where c1: "files w1 = files w"
      "calls w1 = calls w @ c1" "list_all (sink_call env obj v out) c1" "all_returned env c1"
      by (auto simp: call_outcome_def)
    from r1(2) show ?thesis
    proof (cases rule: and_thenE)
      case (raised e)
      from grows_chain[OF c1 g(2)[OF raised(1)]] obtain cs where
        "files w' = files w" "calls w' = calls w @ cs" "list_all (sink_call env obj v out) cs"
        "raised_at_last env e cs" by (auto simp: call_outcome_def)
      with raised(2) show ?thesis by (rule that(1))
    next
      case r2: (returned x2 w2)
      from grows_chain[OF c1 g(2)[OF r2(1)]] obtain c2 where c2: "files w2 = files w"
        "calls w2 = calls w @ c2" "list_all (sink_call env obj v out) c2" "all_returned env c2"
        by (auto simp: call_outcome_def)
      from r2(2) show ?thesis
      proof (cases rule: and_thenE)
        case (raised e)
        from grows_chain[OF c2 g(3)[OF raised(1)]] obtain cs where
          "files w' = files w" "calls w' = calls w @ cs" "list_all (sink_call env obj v out) cs"
          "raised_at_last env e cs" by (auto simp: call_outcome_def)
        with raised(2) show ?thesis by (rule that(1))
      next
        case r3: (returned x3 w3)
        from grows_chain[OF c2 g(3)[OF r3(1)]] obtain c3 where c3: "files w3 = files w"
          "calls w3 = calls w @ c3" "list_all (sink_call env obj v out) c3" "all_returned env c3"
          by (auto simp: call_outcome_def)
        from r3(2) show ?thesis
        proof (cases rule: and_thenE)
          case (raised e)
          from grows_chain[OF c3 g(4)[OF raised(1)]] obtain cs where
            "files w' = files w" "calls w' = calls w @ cs" "list_all (sink_call env obj v out) cs"
            "raised_at_last env e cs" by (auto simp: call_outcome_def)
          with raised(2) show ?thesis by (rule that(1))
        next
          case r4: (returned x4 w4)
          from grows_chain[OF c3 g(4)[OF r4(1)]] obtain c4 where c4: "files w4 = files w"
            "calls w4 = calls w @ c4" "list_all (sink_call env obj v out) c4" "all_returned env c4"
            by (auto simp: call_outcome_def)
          from r4(2) have "k () w4 = (r, w')" by simp
          with c4 show ?thesis by (intro that(2)[of w4 c4])
        qed
      qed
    qed
  qed
qed

subsection \<open>The outcomes of the handler\<close>

lemma download_s3_object_cases:
  assumes "download_s3_object env obj ''/tmp'' w = (r, w')"
  shows "case raises env (CreateDir (dirname (artifact_path obj))) of
           Some e \<Rightarrow> r = Inl e \<and> files w' = files w
              \<and> calls w' = calls w @ [CreateDir (dirname (artifact_path obj))]
         | None \<Rightarrow>
            (case raises env (DownloadFile (bucket_name obj) (key obj) (artifact_path obj)) of
               Some e \<Rightarrow> r = Inl e \<and> files w' = files w
                 \<and> calls w' = calls w @ [CreateDir (dirname (artifact_path obj)),
                      DownloadFile (bucket_name obj) (key obj) (artifact_path obj)]
             | None \<Rightarrow> r = Inr (artifact_path obj) \<and> files w' = insert (artifact_path obj) (files w)
                 \<and> calls w' = calls w @ [CreateDir (dirname (artifact_path obj)),
                      DownloadFile (bucket_name obj) (key obj) (artifact_path obj)])"
  using assms
  by (auto simp: download_s3_object_def download_file_def artifact_path_def Let_def
      call_ext_iff return_iff split: option.splits sum.splits prod.splits elim!: and_thenE)

lemma scan_file_iff:
  "scan_file env path w = (r, w') \<longleftrightarrow>
     w' = w\<lparr>calls := calls w @ [ScanFile path]\<rparr> \<and>
     r = (case raises env (ScanFile path) of Some e \<Rightarrow> Inl e | None \<Rightarrow> Inr (clamscan env path))"
  by (auto simp: scan_file_def and_then_def call_ext_def return_def split: option.splits)

lemma finish_cases:
  assumes "and_then (metrics_send env e b k v) (\<lambda>_.
           and_then (try_os_remove env p) (\<lambda>_.
           and_then (utcnow env) (\<lambda>_. return ()))) w = (r, w')"
  shows "case raises env (MetricsSend e b k v) of
           Some err \<Rightarrow> r = Inl err \<and> files w' = files w \<and> calls w' = calls w @ [MetricsSend e b k v]
         | None \<Rightarrow> r = Inr ()
             \<and> files w' = (if p \<in> files w \<and> raises env (OsRemove p) = None
                           then files w - {p} else files w)
             \<and> calls w' = calls w @ [MetricsSend e b k v, OsRemove p]"
  using assms
  by (auto simp: metrics_send_def call_ext_iff return_iff utcnow_iff try_os_remove_iff
      split: option.splits if_splits elim!: and_thenE)

lemma and_then_utcnow:
  "and_then (utcnow env) g w = g (clock env (ticks w)) (w\<lparr>ticks := Suc (ticks w)\<rparr>)"
  by (simp add: and_then_def utcnow_def)

lemma and_then_lift_Inr: "and_then (lift (Inr x)) g w = g x w"
  by (simp add: and_then_def lift_def)

lemma and_then_lift_Inl: "and_then (lift (Inl e)) g w = (Inl e, w)"
  by (simp add: and_then_def lift_def)

lemma event_webhook_nonempty: "event_webhook env ev = Inr (webhook, auth) \<Longrightarrow> webhook \<noteq> []"
  by (auto simp: event_webhook_def Let_def split: sum.splits if_splits)

lemma handler_outcomes:
  assumes run: "lambda_handler env ev w = (r, w')"
    and obj: "event_object env ev = Inr obj"
    and wh: "event_webhook env ev = Inr (webhook, auth)"
  defines "p \<equiv> artifact_path obj"
    and "v \<equiv> fst (clamscan env (artifact_path obj))"
    and "out \<equiv> snd (clamscan env (artifact_path obj))"
    and "dl \<equiv> DownloadFile (bucket_name obj) (key obj) (artifact_path obj)"
    and "ms \<equiv> MetricsSend (ENV env) (bucket_name obj) (key obj) (fst (clamscan env (artifact_path obj)))"
  shows
    "(\<exists>e n. r = Inl e \<and> files w' = files w \<and> n < 3
        \<and> calls w' = calls w @ take (Suc n) (fetch_calls env obj webhook auth)
        \<and> raised_at_last env e (take (Suc n) (fetch_calls env obj webhook auth)))
   \<or> (\<exists>e n. r = Inl e \<and> files w' = insert p (files w) \<and> raises env dl = None \<and> 3 \<le> n \<and> n < 5
        \<and> calls w' = calls w @ take (Suc n) (fetch_calls env obj webhook auth)
        \<and> raised_at_last env e (take (Suc n) (fetch_calls env obj webhook auth)))
   \<or> (\<exists>e pub. r = Inl e \<and> files w' = insert p (files w) \<and> raises env dl = None
        \<and> calls w' = calls w @ fetch_calls env obj webhook auth @ pub
        \<and> list_all (sink_call env obj v out) pub
        \<and> all_returned env (fetch_calls env obj webhook auth)
        \<and> raised_at_last env e pub)
   \<or> (\<exists>e pub. r = Inl e \<and> files w' = insert p (files w) \<and> raises env dl = None
        \<and> raises env ms = Some e
        \<and> calls w' = calls w @ fetch_calls env obj webhook auth @ pub @ [ms]
        \<and> list_all (sink_call env obj v out) pub
        \<and> all_returned env (fetch_calls env obj webhook auth @ pub))
   \<or> (\<exists>pub. r = Inr ()
        \<and> files w' = (if raises env (OsRemove p) = None then files w - {p} else insert p (files w))
        \<and> raises env dl = None
        \<and> raises env ms = None
        \<and> calls w' = calls w @ fetch_calls env obj webhook auth @ pub @ [ms, OsRemove p]
        \<and> list_all (sink_call env obj v out) pub
        \<and> all_returned env (fetch_calls env obj webhook auth @ pub))"
proof -
  have ne: "webhook \<noteq> []" using wh by (rule event_webhook_nonempty)
  let ?w0 = "w\<lparr>ticks := Suc (ticks w)\<rparr>"
  let ?fc = "fetch_calls env obj webhook auth"
  let ?post = "Post webhook [] auth"
  let ?mk = "CreateDir (dirname (artifact_path obj))"
  let ?upd = "UpdateDefs (AV_DEFINITION_S3_BUCKET env) (AV_DEFINITION_S3_PREFIX env)"
  let ?scan = "ScanFile (artifact_path obj)"
  have fc: "?fc = [?post, ?mk, dl, ?upd, ?scan]"
    by (simp add: fetch_calls_def dl_def)
  from run obj wh have
    "and_then (webhook_scan_started env obj webhook auth) (\<lambda>_.
     and_then (download_s3_object env obj ''/tmp'') (\<lambda>file_path.
     and_then (update_defs_from_s3 env (AV_DEFINITION_S3_BUCKET env) (AV_DEFINITION_S3_PREFIX env)) (\<lambda>_.
     and_then (scan_file env file_path) (\<lambda>(scan_result, scan_output).
     and_then (if AV_UPDATE_METADATA env then set_av_metadata env obj scan_result else return ()) (\<lambda>_.
     and_then (set_av_tags env obj scan_result) (\<lambda>_.
     and_then (sns_scan_results env obj scan_result) (\<lambda>_.
     and_then (webhook_scan_results env obj scan_result scan_output webhook auth) (\<lambda>_.
     and_then (metrics_send env (ENV env) (bucket_name obj) (key obj) scan_result) (\<lambda>_.
     and_then (try_os_remove env file_path) (\<lambda>_.
     and_then (utcnow env) (\<lambda>_.
     return ()))))))))))) ?w0 = (r, w')"
    by (simp add: lambda_handler_def and_then_utcnow and_then_lift_Inr)
  then show ?thesis
  proof (cases rule: and_thenE)
    case (raised e)
    with ne have "r = Inl e \<and> files w' = files w
        \<and> calls w' = calls w @ take (Suc 0) ?fc \<and> raised_at_last env e (take (Suc 0) ?fc)"
      by (auto simp: webhook_scan_started_def call_ext_iff fc split: option.splits)
    then show ?thesis by (intro disjI1 exI[of _ e] exI[of _ 0]) simp
  next
    case s1: (returned x1 w1)
    from s1(1) ne have w1: "files w1 = files w" "calls w1 = calls w @ [?post]"
      "raises env ?post = None"
      by (auto simp: webhook_scan_started_def call_ext_iff split: option.splits)
    from s1(2) show ?thesis
    proof (cases rule: and_thenE)
      case (raised e)
      from download_s3_object_cases[OF raised(1)] w1
      have "(calls w' = calls w @ take (Suc 1) ?fc \<and> raised_at_last env e (take (Suc 1) ?fc)
              \<or> calls w' = calls w @ take (Suc 2) ?fc \<and> raised_at_last env e (take (Suc 2) ?fc))
            \<and> files w' = files w"
        by (auto simp: fc dl_def raised_at_last_def split: option.splits)
      with raised(2) have "\<exists>n. r = Inl e \<and> files w' = files w \<and> n < 3
        \<and> calls w' = calls w @ take (Suc n) ?fc \<and> raised_at_last env e (take (Suc n) ?fc)"
        by (auto intro: exI[of _ 1] exI[of _ 2])
      then show ?thesis by blast
    next
      case s2: (returned x2 w2)
      from download_s3_object_cases[OF s2(1)] w1
      have w2: "x2 = p" "raises env dl = None" "files w2 = insert p (files w)"
        "calls w2 = calls w @ [?post, ?mk, dl]" "raises env ?mk = None"
        by (auto simp: dl_def p_def split: option.splits)
      from s2(2) show ?thesis
      proof (cases rule: and_thenE)
        case (raised e)
        with w1(3) w2 have "r = Inl e \<and> files w' = insert p (files w)
          \<and> calls w' = calls w @ take (Suc 3) ?fc \<and> raised_at_last env e (take (Suc 3) ?fc)"
          by (auto simp: update_defs_from_s3_def call_ext_iff fc raised_at_last_def
              split: option.splits)
        with w2(2) show ?thesis by (intro disjI2 disjI1 exI[of _ e] exI[of _ 3]) simp
      next
        case s3: (returned x3 w3)
        from s3(1) w2 have w3: "files w3 = insert p (files w)"
          "calls w3 = calls w @ [?post, ?mk, dl, ?upd]" "raises env ?upd = None"
          by (auto simp: update_defs_from_s3_def call_ext_iff split: option.splits)
        from s3(2) show ?thesis
        proof (cases rule: and_thenE)
          case (raised e)
          with w1(3) w2(1,2,5) w3 have "r = Inl e \<and> files w' = insert p (files w)
            \<and> calls w' = calls w @ take (Suc 4) ?fc \<and> raised_at_last env e (take (Suc 4) ?fc)"
            by (auto simp: scan_file_iff fc p_def raised_at_last_def split: option.splits)
          with w2(2) show ?thesis by (intro disjI2 disjI1 exI[of _ e] exI[of _ 4]) simp
        next
          case s4: (returned x4 w4)
          from s4(1) w2(1) w3 have w4: "x4 = (v, out)" "files w4 = insert p (files w)"
            "calls w4 = calls w @ ?fc" "raises env ?scan = None"
            by (auto simp: scan_file_iff fc p_def v_def out_def split: option.splits)
          from w1(3) w2(2,5) w3(3) w4(4) have ok: "all_returned env ?fc"
            by (simp add: fc)
          from s4(2) w4(1) w2(1) have
            "and_then (if AV_UPDATE_METADATA env then set_av_metadata env obj v else return ()) (\<lambda>_.
             and_then (set_av_tags env obj v) (\<lambda>_.
             and_then (sns_scan_results env obj v) (\<lambda>_.
             and_then (webhook_scan_results env obj v out webhook auth) (\<lambda>_.
             and_then (metrics_send env (ENV env) (bucket_name obj) (key obj) v) (\<lambda>_.
             and_then (try_os_remove env p) (\<lambda>_.
             and_then (utcnow env) (\<lambda>_.
             return ()))))))) w4 = (r, w')"
            by simp
          then show ?thesis
          proof (cases rule: publish_blockE)
            case (raised e pub)
            with w4 w2(2) ok show ?thesis
              by (intro disjI2 disjI1 exI[of _ e] exI[of _ pub]) simp
          next
            case (returned w5 pub)
            have in5: "p \<in> files w5" using returned(1) w4(2) by simp
            show ?thesis
            proof (cases "raises env ms")
              case None
              with finish_cases[OF returned(5)] returned w4 w2(2) ok in5
              have "r = Inr ()
                \<and> files w' = (if raises env (OsRemove p) = None then files w - {p}
                               else insert p (files w))
                \<and> raises env dl = None \<and> raises env ms = None
                \<and> calls w' = calls w @ ?fc @ pub @ [ms, OsRemove p]
                \<and> list_all (sink_call env obj v out) pub
                \<and> all_returned env (?fc @ pub)"
                by (auto simp: ms_def v_def)
              then show ?thesis by blast
            next
              case (Some e)
              with finish_cases[OF returned(5)] returned w4 w2(2) ok
              have "r = Inl e \<and> files w' = insert p (files w) \<and> raises env dl = None
                \<and> raises env ms = Some e
                \<and> calls w' = calls w @ ?fc @ pub @ [ms]
                \<and> list_all (sink_call env obj v out) pub
                \<and> all_returned env (?fc @ pub)"
                by (simp add: ms_def v_def)
              then show ?thesis by blast
            qed
          qed
        qed
      qed
    qed
  qed
qed

subsection \<open>Replacing the placeholder\<close>

lemma sublist_skip_prefix:
  "c \<notin> set xs \<Longrightarrow> sublist (c # p) (xs @ r) \<longleftrightarrow> sublist (c # p) r"
  by (induction xs) (auto simp: sublist_Cons_right)

lemma prefix_replace_back:
  assumes "new \<noteq> []" "hd new \<notin> set q" "c0 \<notin> set q"
  shows "prefix q (replace (c0 # old) new s) \<Longrightarrow> prefix q s"
  using assms(2,3)
proof (induction q arbitrary: s)
  case Nil
  then show ?case by simp
next
  case (Cons x q)
  show ?case
  proof (cases s)
    case Nil
    with Cons.prems show ?thesis by simp
  next
    case (Cons d ds)
    show ?thesis
    proof (cases "prefix (c0 # old) (d # ds)")
      case True
      with Cons.prems(1) Cons assms(1) have "x = hd new"
        by (cases new) auto
      with Cons.prems(2) show ?thesis by simp
    next
      case False
      with Cons.prems(1) Cons have "x = d" "prefix q (replace (c0 # old) new ds)"
        by auto
      moreover from Cons.prems have "hd new \<notin> set q" "c0 \<notin> set q" by auto
      ultimately show ?thesis using Cons.IH[of ds] Cons by simp
    qed
  qed
qed

lemma replace_removes_old:
  assumes "new \<noteq> []" "c0 \<notin> set new" "hd new \<notin> set old" "c0 \<notin> set old"
  shows "\<not> sublist (c0 # old) (replace (c0 # old) new s)"
proof (induction s rule: length_induct)
  case (1 s)
  show ?case
  proof (cases s)
    case Nil
    then show ?thesis by simp
  next
    case (Cons d ds)
    show ?thesis
    proof (cases "prefix (c0 # old) (d # ds)")
      case True
      have "length (drop (length (c0 # old)) (d # ds)) < length s"
        using Cons by simp
      with 1 have "\<not> sublist (c0 # old) (replace (c0 # old) new (drop (length (c0 # old)) (d # ds)))"
        by blast
      with True Cons assms(2) show ?thesis
        by (simp add: sublist_skip_prefix del: drop_Suc_Cons)
    next
      case False
      from 1 Cons have ih: "\<not> sublist (c0 # old) (replace (c0 # old) new ds)" by simp
      have "\<not> prefix (c0 # old) (d # replace (c0 # old) new ds)"
      proof
        assume "prefix (c0 # old) (d # replace (c0 # old) new ds)"
        then have "c0 = d" "prefix old (replace (c0 # old) new ds)" by auto
        from prefix_replace_back[OF assms(1,3,4) this(2)] this(1) False show False by simp
      qed
      moreover from False Cons
      have "replace (c0 # old) new s = d # replace (c0 # old) new ds" by auto
      ultimately show ?thesis using ih by (simp only: sublist_Cons_right) simp
    qed
  qed
qed

lemma service_replaced: "\<not> sublist '':service'' (replace '':service'' ''antivirus'' s)"
  by (rule replace_removes_old) simp_all

subsection \<open>Decoding failures and the examples\<close>

lemmas example_defs =
  env_example_def env_scan_raises_def env_metrics_raises_def world_example_def world_tagged_def
  event_full_def event_no_webhook_def event_no_bucket_def record_full_def record_no_webhook_def
  record_no_bucket_def json_loads_example_def message_full_def message_no_webhook_def
  message_no_bucket_def object_full_def is_scan_def is_metrics_def is_remove_def
  env_scan_error_def env_remove_raises_def

lemmas decode_defs =
  event_object_def event_webhook_def first_message_def getitem_def unquote_plus_def
  plus_to_space_def

lemmas handler_defs =
  lambda_handler_def and_then_def lift_def return_def utcnow_def webhook_scan_started_def
  call_ext_def download_s3_object_def download_file_def dirname_def update_defs_from_s3_def
  scan_file_def set_av_metadata_def head_object_def copy_object_def set_av_tags_def
  get_object_tagging_def put_object_tagging_def strip_av_tags_def sns_scan_results_def
  webhook_scan_results_def basename_def metrics_send_def try_os_remove_def os_remove_def
  artifact_path_def

lemma handler_object_error:
  "event_object env ev = Inl e \<Longrightarrow> lambda_handler env ev w = (Inl e, w\<lparr>ticks := Suc (ticks w)\<rparr>)"
  by (simp add: lambda_handler_def and_then_utcnow and_then_lift_Inl)

lemma handler_webhook_error:
  "event_object env ev = Inr obj \<Longrightarrow> event_webhook env ev = Inl e \<Longrightarrow>
     lambda_handler env ev w = (Inl e, w\<lparr>ticks := Suc (ticks w)\<rparr>)"
  by (simp add: lambda_handler_def and_then_utcnow and_then_lift_Inl and_then_lift_Inr)

lemma event_object_full: "event_object env_example event_full = Inr object_full"
  by (simp add: example_defs decode_defs)

lemma event_webhook_full:
  "event_webhook env_example event_full = Inr (''https://x/antivirus'', ''tok'')"
  by (simp add: example_defs decode_defs)

lemma first_message_full: "first_message env_example event_full = Inr message_full"
  by (simp add: example_defs decode_defs)

subsection \<open>Runs of the examples\<close>



lemma fetch_call_kinds:
  assumes "c \<in> set (fetch_calls env obj webhook auth)"
  shows "\<not> is_metrics c" "\<not> publish_call c" "delivered env obj v out c"
  using assms by (auto simp: fetch_calls_def is_metrics_def publish_call_def delivered_def)

lemma take_fetch_call_kinds:
  assumes "c \<in> set (take n (fetch_calls env obj webhook auth))"
  shows "\<not> is_metrics c" "\<not> publish_call c" "delivered env obj v out c"
  using fetch_call_kinds[OF in_set_takeD[OF assms]] by auto

lemma publish_call_kinds:
  assumes "publish_call c"
  shows "\<not> is_metrics c" "\<not> is_scan c" "c \<noteq> Post u b a" "c \<noteq> OsRemove p"
  using assms by (auto simp: publish_call_def is_metrics_def is_scan_def split: call.splits)

lemma sink_calls_publish: "list_all (sink_call env obj v out) pub \<Longrightarrow> list_all publish_call pub"
  by (auto simp: list_all_iff sink_call_def)

lemma sink_calls_delivered:
  "AV_STATUS_METADATA env \<noteq> AV_TIMESTAMP_METADATA env \<Longrightarrow>
     list_all (sink_call env obj v out) pub \<Longrightarrow> list_all (delivered env obj v out) pub"
  by (auto simp: list_all_iff sink_call_def)

lemma filter_scan_fetch:
  "filter is_scan (fetch_calls env obj webhook auth) = [ScanFile (artifact_path obj)]"
  by (simp add: fetch_calls_def is_scan_def)

lemma filter_scan_publish: "list_all publish_call pub \<Longrightarrow> filter is_scan pub = []"
  by (auto simp: filter_empty_conv list_all_iff dest: publish_call_kinds(2))


lemma run_full:
  "fst (lambda_handler env_example event_full world_example) = Inr ()"
  "files (snd (lambda_handler env_example event_full world_example)) = {}"
  "calls (snd (lambda_handler env_example event_full world_example))
     = [Post ''https://x/antivirus'' [] ''tok'', CreateDir ''/tmp/b'',
        DownloadFile ''b'' ''a b'' ''/tmp/b/a b'', UpdateDefs ''defs'' ''clamav_defs'',
        ScanFile ''/tmp/b/a b'', HeadObject ''b'' ''a b'',
        CopyObject ''b'' ''a b'' ''text/plain''
          [(''av-status'', ''CLEAN''), (''av-timestamp'', ''2026/01/01 00:00:00 UTC'')],
        GetObjectTagging ''b'' ''a b'',
        PutObjectTagging ''b'' ''a b''
          [(''av-status'', ''CLEAN''), (''av-timestamp'', ''2026/01/01 00:00:00 UTC'')],
        SnsPublish ''arn:topic''
          [(''bucket'', ''b''), (''key'', ''a b''), (''av-status'', ''CLEAN''),
           (''av-timestamp'', ''2026/01/01 00:00:00 UTC'')],
        Patch ''https://x/antivirus''
          [(''filename'', JStr ''a b''), (''is_infected'', JBool False),
           (''status'', JStr ''success''), (''result'', JStr ''clean'')] ''tok'',
        MetricsSend ''prod'' ''b'' ''a b'' ''CLEAN'', OsRemove ''/tmp/b/a b'']"
  by (simp_all add: handler_defs example_defs decode_defs Let_def)


lemma run_full_scan_error:
  "calls (snd (lambda_handler env_scan_error event_full world_example))
     = [Post ''https://x/antivirus'' [] ''tok'', CreateDir ''/tmp/b'',
        DownloadFile ''b'' ''a b'' ''/tmp/b/a b'', UpdateDefs ''defs'' ''clamav_defs'',
        ScanFile ''/tmp/b/a b'', HeadObject ''b'' ''a b'',
        CopyObject ''b'' ''a b'' ''text/plain''
          [(''av-status'', ''ERROR''), (''av-timestamp'', ''2026/01/01 00:00:00 UTC'')],
        GetObjectTagging ''b'' ''a b'',
        PutObjectTagging ''b'' ''a b''
          [(''av-status'', ''ERROR''), (''av-timestamp'', ''2026/01/01 00:00:00 UTC'')],
        SnsPublish ''arn:topic''
          [(''bucket'', ''b''), (''key'', ''a b''), (''av-status'', ''ERROR''),
           (''av-timestamp'', ''2026/01/01 00:00:00 UTC'')],
        Patch ''https://x/antivirus''
          [(''filename'', JStr ''a b''), (''is_infected'', JBool False),
           (''status'', JStr ''success''), (''result'', JStr ''clean'')] ''tok'',
        MetricsSend ''prod'' ''b'' ''a b'' ''ERROR'', OsRemove ''/tmp/b/a b'']"
  by (simp add: handler_defs example_defs decode_defs Let_def)

section \<open>The claims\<close>

subsection \<open>C1: removal of the local artifact\<close>




subsection \<open>C2: a message without a webhook\<close>

text \<open>
  Claim C2, as amended. For every event whose message holds a valid bucket and key and no
  webhook field, \<^verbatim>\<open>event_object\<close> succeeds and \<^verbatim>\<open>event_webhook\<close> raises
  \<^verbatim>\<open>KeyError('webhook')\<close>; the handler raises that error before any call to a collaborator,
  so neither webhook sink performs a network call. Each webhook sink, called with an empty
  webhook URL, returns without a call.
\<close>

theorem no_webhook_aborts:
  assumes "first_message env ev = Inr message"
    and "message ''webhook'' = None"
    and "event_object env ev = Inr obj"
  shows "event_webhook env ev = Inl (KeyError ''webhook'')
       \<and> lambda_handler env ev w = (Inl (KeyError ''webhook''), w\<lparr>ticks := Suc (ticks w)\<rparr>)
       \<and> calls (snd (lambda_handler env ev w)) = calls w
       \<and> webhook_scan_started env obj [] auth w = (Inr (), w)
       \<and> webhook_scan_results env obj v out [] auth w = (Inr (), w)"
proof -
  from assms(1,2) have h: "event_webhook env ev = Inl (KeyError ''webhook'')"
    by (simp add: event_webhook_def getitem_def)
  from handler_webhook_error[OF assms(3) h] h show ?thesis
    by (simp add: webhook_scan_started_def webhook_scan_results_def return_def)
qed

theorem no_webhook_aborts_witness:
  "event_webhook env_example event_no_webhook = Inl (KeyError ''webhook'')
   \<and> calls (snd (lambda_handler env_example event_no_webhook world_example)) = []"
proof -
  have m: "first_message env_example event_no_webhook = Inr message_no_webhook"
    by (simp add: example_defs decode_defs)
  have n: "message_no_webhook ''webhook'' = None" by (simp add: message_no_webhook_def)
  have o: "event_object env_example event_no_webhook = Inr \<lparr>bucket_name = ''b'', key = ''clean.txt''\<rparr>"
    by (simp add: example_defs decode_defs)
  from no_webhook_aborts[OF m n o, of world_example] show ?thesis
    by (simp add: world_example_def)
qed

text \<open>
  The claim as stated fails on the message of scenario A, which has a bucket and a key and
  neither a webhook nor an auth field: decoding does not succeed.
\<close>

theorem no_webhook_counterexample:
  "first_message env_example event_no_webhook = Inr message_no_webhook
   \<and> message_no_webhook ''webhook'' = None \<and> message_no_webhook ''auth'' = None
   \<and> event_object env_example event_no_webhook = Inr \<lparr>bucket_name = ''b'', key = ''clean.txt''\<rparr>
   \<and> event_webhook env_example event_no_webhook = Inl (KeyError ''webhook'')
   \<and> fst (lambda_handler env_example event_no_webhook world_example) = Inl (KeyError ''webhook'')"
proof -
  have o: "event_object env_example event_no_webhook = Inr \<lparr>bucket_name = ''b'', key = ''clean.txt''\<rparr>"
    by (simp add: example_defs decode_defs)
  have h: "event_webhook env_example event_no_webhook = Inl (KeyError ''webhook'')"
    by (simp add: example_defs decode_defs)
  have "first_message env_example event_no_webhook = Inr message_no_webhook"
    by (simp add: example_defs decode_defs)
  with o h handler_webhook_error[OF o h, of world_example] show ?thesis
    by (simp add: message_no_webhook_def)
qed

subsection \<open>C3: the tag sink applied twice\<close>

lemma set_av_tags_returns:
  assumes "set_av_tags env obj v w = (Inr u, w')"
  shows "tagging w' (bucket_name obj, key obj)
       = filter (\<lambda>t. fst t \<noteq> AV_STATUS_METADATA env \<and> fst t \<noteq> AV_TIMESTAMP_METADATA env)
           (tagging w (bucket_name obj, key obj))
         @ [(AV_STATUS_METADATA env, v), (AV_TIMESTAMP_METADATA env, clock env (ticks w))]"
    and "ticks w' = Suc (ticks w)"
  using assms
  by (auto simp: set_av_tags_def get_object_tagging_def put_object_tagging_def call_ext_iff
      utcnow_iff strip_av_tags_filter split: prod.splits sum.splits option.splits elim!: and_thenE)

text \<open>
  Claim C3. Let the status key and the timestamp key be distinct. For every starting tag set
  and all verdicts, when \<^verbatim>\<open>set_av_tags\<close> is applied twice in succession to an object and
  both applications return, the tag set of the object is the tags of the starting set whose
  key is neither of the two keys, in their order, followed by the status tag and the
  timestamp tag of the second application. So it holds exactly one status tag and exactly one
  timestamp tag, the fresh ones, and the tags with other keys are those of the starting set.
\<close>

theorem set_av_tags_twice:
  assumes ne: "AV_STATUS_METADATA env \<noteq> AV_TIMESTAMP_METADATA env"
    and first: "set_av_tags env obj v1 w = (Inr (), w1)"
    and second: "set_av_tags env obj v2 w1 = (Inr (), w2)"
  shows "tagging w2 (bucket_name obj, key obj)
       = filter (\<lambda>t. fst t \<noteq> AV_STATUS_METADATA env \<and> fst t \<noteq> AV_TIMESTAMP_METADATA env)
           (tagging w (bucket_name obj, key obj))
         @ [(AV_STATUS_METADATA env, v2), (AV_TIMESTAMP_METADATA env, clock env (Suc (ticks w)))]
     \<and> filter (\<lambda>t. fst t = AV_STATUS_METADATA env) (tagging w2 (bucket_name obj, key obj))
       = [(AV_STATUS_METADATA env, v2)]
     \<and> filter (\<lambda>t. fst t = AV_TIMESTAMP_METADATA env) (tagging w2 (bucket_name obj, key obj))
       = [(AV_TIMESTAMP_METADATA env, clock env (Suc (ticks w)))]
     \<and> filter (\<lambda>t. fst t \<noteq> AV_STATUS_METADATA env \<and> fst t \<noteq> AV_TIMESTAMP_METADATA env)
         (tagging w2 (bucket_name obj, key obj))
       = filter (\<lambda>t. fst t \<noteq> AV_STATUS_METADATA env \<and> fst t \<noteq> AV_TIMESTAMP_METADATA env)
           (tagging w (bucket_name obj, key obj))"
proof -
  let ?other = "\<lambda>t. fst t \<noteq> AV_STATUS_METADATA env \<and> fst t \<noteq> AV_TIMESTAMP_METADATA env"
  let ?t0 = "tagging w (bucket_name obj, key obj)"
  have t1: "tagging w1 (bucket_name obj, key obj)
      = filter ?other ?t0 @ [(AV_STATUS_METADATA env, v1), (AV_TIMESTAMP_METADATA env, clock env (ticks w))]"
    and k1: "ticks w1 = Suc (ticks w)"
    using set_av_tags_returns[OF first] by simp_all
  have t2: "tagging w2 (bucket_name obj, key obj)
      = filter ?other ?t0 @ [(AV_STATUS_METADATA env, v2), (AV_TIMESTAMP_METADATA env, clock env (Suc (ticks w)))]"
    using set_av_tags_returns(1)[OF second] by (simp add: t1 k1)
  have s: "filter (\<lambda>t. fst t = AV_STATUS_METADATA env) (filter ?other ?t0) = []"
    and t: "filter (\<lambda>t. fst t = AV_TIMESTAMP_METADATA env) (filter ?other ?t0) = []"
    by (auto simp: filter_empty_conv)
  from ne s t show ?thesis by (simp add: t2)
qed

text \<open>An object tagged by earlier scans, with the status tag twice, scanned twice again.\<close>

theorem set_av_tags_twice_witness:
  "tagging (snd (set_av_tags env_example object_full ''CLEAN''
             (snd (set_av_tags env_example object_full ''CLEAN'' world_tagged)))) (''b'', ''a b'')
   = [(''owner'', ''me''), (''av-status'', ''CLEAN''), (''av-timestamp'', ''2026/01/01 00:00:00 UTC'')]"
proof -
  let ?w1 = "snd (set_av_tags env_example object_full ''CLEAN'' world_tagged)"
  let ?w2 = "snd (set_av_tags env_example object_full ''CLEAN'' ?w1)"
  have ne: "AV_STATUS_METADATA env_example \<noteq> AV_TIMESTAMP_METADATA env_example"
    by (simp add: env_example_def)
  have "fst (set_av_tags env_example object_full ''CLEAN'' world_tagged) = Inr ()"
    by (simp add: handler_defs example_defs)
  then have first: "set_av_tags env_example object_full ''CLEAN'' world_tagged = (Inr (), ?w1)"
    by (simp add: prod_eq_iff)
  have "fst (set_av_tags env_example object_full ''CLEAN'' ?w1) = Inr ()"
    by (simp add: handler_defs example_defs)
  then have second: "set_av_tags env_example object_full ''CLEAN'' ?w1 = (Inr (), ?w2)"
    by (simp add: prod_eq_iff)
  from set_av_tags_twice[OF ne first second] show ?thesis
    by (simp add: example_defs)
qed

subsection \<open>C4: the metrics sink\<close>




subsection \<open>C5: one verdict, and what each sink receives\<close>

text \<open>
  Claim C5, as amended. Let the status key and the timestamp key be distinct. In every
  invocation the scan engine is asked at most once, and whenever a sink is called the
  invocation holds exactly one scan, of the artifact. The metadata sink, the tag sink, the
  topic sink and the metrics sink each receive the status string that this scan returned,
  unchanged: it is the status written to the metadata, the only status tag, the status of
  the topic message and the status sent to the metrics. The webhook-result sink does not
  receive the status string: the body of its request is computed from it, with is_infected
  true and result \<open>INFECTED: \<close> followed by the diagnostic text exactly when the status is
  \<open>INFECTED\<close>, with is_infected false and result \<open>clean\<close> for every other status, and
  with the constant status \<open>success\<close>.
\<close>

theorem verdict_consistent:
  assumes run: "lambda_handler env ev w = (r, w')"
    and obj: "event_object env ev = Inr obj"
    and ne: "AV_STATUS_METADATA env \<noteq> AV_TIMESTAMP_METADATA env"
    and cs: "calls w' = calls w @ cs"
  shows "list_all (delivered env obj (fst (clamscan env (artifact_path obj)))
                     (snd (clamscan env (artifact_path obj)))) cs
       \<and> length (filter is_scan cs) \<le> 1
       \<and> ((\<exists>c \<in> set cs. publish_call c \<or> is_metrics c)
            \<longrightarrow> filter is_scan cs = [ScanFile (artifact_path obj)])"
proof (cases "event_webhook env ev")
  case (Inl e)
  from handler_webhook_error[OF obj Inl, of w] run cs show ?thesis by auto
next
  case (Inr wa)
  obtain webhook auth where "wa = (webhook, auth)" by (cases wa)
  with Inr have wh: "event_webhook env ev = Inr (webhook, auth)" by simp
  let ?fc = "fetch_calls env obj webhook auth"
  let ?v = "fst (clamscan env (artifact_path obj))"
  let ?out = "snd (clamscan env (artifact_path obj))"
  let ?ms = "MetricsSend (ENV env) (bucket_name obj) (key obj) ?v"
  have fc: "list_all (delivered env obj ?v ?out) ?fc"
    by (auto simp: list_all_iff dest: fetch_call_kinds(3))
  have tk: "\<And>n. list_all (delivered env obj ?v ?out) (take n ?fc)"
    by (auto simp: list_all_iff dest: take_fetch_call_kinds(3))
  have tn: "\<And>n c. c \<in> set (take n ?fc) \<Longrightarrow> \<not> (publish_call c \<or> is_metrics c)"
    by (auto dest: take_fetch_call_kinds(1,2))
  have ts: "\<And>n. length (filter is_scan (take n ?fc)) \<le> 1"
  proof -
    fix n
    have "length (filter is_scan (take n ?fc)) \<le> length (filter is_scan (take n ?fc @ drop n ?fc))"
      unfolding filter_append by simp
    then show "length (filter is_scan (take n ?fc)) \<le> 1"
      by (simp add: filter_scan_fetch)
  qed
  have ms: "delivered env obj ?v ?out ?ms" "\<not> is_scan ?ms"
    "delivered env obj ?v ?out (OsRemove (artifact_path obj))" "\<not> is_scan (OsRemove (artifact_path obj))"
    by (simp_all add: delivered_def is_scan_def)
  from handler_outcomes[OF run obj wh] show ?thesis
  proof (elim disjE exE conjE)
    fix e n
    assume a: "calls w' = calls w @ take (Suc n) ?fc"
    from a cs have "cs = take (Suc n) ?fc" by simp
    with tk ts tn show ?thesis by blast
  next
    fix e n
    assume a: "calls w' = calls w @ take (Suc n) ?fc"
    from a cs have "cs = take (Suc n) ?fc" by simp
    with tk ts tn show ?thesis by blast
  next
    fix e pub
    assume a: "calls w' = calls w @ ?fc @ pub" "list_all (sink_call env obj ?v ?out) pub"
    from a(1) cs have "cs = ?fc @ pub" by simp
    with fc sink_calls_delivered[OF ne a(2)] filter_scan_publish[OF sink_calls_publish[OF a(2)]]
    show ?thesis by (simp add: filter_scan_fetch)
  next
    fix e pub
    assume a: "calls w' = calls w @ ?fc @ pub @ [?ms]" "list_all (sink_call env obj ?v ?out) pub"
    from a(1) cs have "cs = ?fc @ pub @ [?ms]" by simp
    with fc ms sink_calls_delivered[OF ne a(2)] filter_scan_publish[OF sink_calls_publish[OF a(2)]]
    show ?thesis by (simp add: filter_scan_fetch)
  next
    fix pub
    assume a: "calls w' = calls w @ ?fc @ pub @ [?ms, OsRemove (artifact_path obj)]"
      "list_all (sink_call env obj ?v ?out) pub"
    from a(1) cs have "cs = ?fc @ pub @ [?ms, OsRemove (artifact_path obj)]" by simp
    with fc ms sink_calls_delivered[OF ne a(2)] filter_scan_publish[OF sink_calls_publish[OF a(2)]]
    show ?thesis by (simp add: filter_scan_fetch)
  qed
qed

text \<open>The run of the full example: five sinks, one scan.\<close>

theorem verdict_consistent_witness:
  "list_all (delivered env_example object_full ''CLEAN'' [])
     (calls (snd (lambda_handler env_example event_full world_example)))
   \<and> filter is_scan (calls (snd (lambda_handler env_example event_full world_example)))
       = [ScanFile ''/tmp/b/a b'']"
proof -
  have ne: "AV_STATUS_METADATA env_example \<noteq> AV_TIMESTAMP_METADATA env_example"
    by (simp add: env_example_def)
  have c: "clamscan env_example ''/tmp/b/a b'' = (''CLEAN'', [])"
    by (simp add: env_example_def)
  have p: "artifact_path object_full = ''/tmp/b/a b''"
    by (simp add: artifact_path_def object_full_def)
  have m: "is_metrics (MetricsSend ''prod'' ''b'' ''a b'' ''CLEAN'')"
    by (simp add: is_metrics_def)
  from verdict_consistent[of env_example event_full world_example
      "fst (lambda_handler env_example event_full world_example)"
      "snd (lambda_handler env_example event_full world_example)" object_full
      "calls (snd (lambda_handler env_example event_full world_example))",
      OF _ event_object_full ne]
  have "list_all (delivered env_example object_full ''CLEAN'' [])
          (calls (snd (lambda_handler env_example event_full world_example)))
      \<and> ((\<exists>c \<in> set (calls (snd (lambda_handler env_example event_full world_example))).
              publish_call c \<or> is_metrics c)
          \<longrightarrow> filter is_scan (calls (snd (lambda_handler env_example event_full world_example)))
               = [ScanFile ''/tmp/b/a b''])"
    by (simp add: world_example_def c p)
  moreover have "MetricsSend ''prod'' ''b'' ''a b'' ''CLEAN''
      \<in> set (calls (snd (lambda_handler env_example event_full world_example)))"
    by (simp add: run_full)
  ultimately show ?thesis using m by blast
qed

text \<open>
  The claim as stated fails for the webhook-result sink. When the scan returns the verdict
  \<open>ERROR\<close>, the metrics sink receives \<open>ERROR\<close>, and the request to the webhook holds no
  status string of the verdict: it is the request that a \<open>CLEAN\<close> verdict gives.
\<close>

theorem verdict_webhook_counterexample:
  "clamscan env_scan_error ''/tmp/b/a b'' = (''ERROR'', ''cannot open file'')
   \<and> MetricsSend ''prod'' ''b'' ''a b'' ''ERROR''
       \<in> set (calls (snd (lambda_handler env_scan_error event_full world_example)))
   \<and> Patch ''https://x/antivirus''
        [(''filename'', JStr ''a b''), (''is_infected'', JBool False),
         (''status'', JStr ''success''), (''result'', JStr ''clean'')] ''tok''
       \<in> set (calls (snd (lambda_handler env_scan_error event_full world_example)))
   \<and> Patch ''https://x/antivirus''
        [(''filename'', JStr ''a b''), (''is_infected'', JBool False),
         (''status'', JStr ''success''), (''result'', JStr ''clean'')] ''tok''
       \<in> set (calls (snd (lambda_handler env_example event_full world_example)))"
  by (simp add: run_full_scan_error run_full) (simp add: example_defs)

subsection \<open>C6: a malformed event aborts before any call\<close>

text \<open>
  Claim C6. When the decoded message has no bucket, an empty bucket, no key or an empty key,
  \<^verbatim>\<open>event_object\<close> raises: \<^verbatim>\<open>KeyError\<close> for the missing field, or the exception
  "Unable to retrieve object from event." for the empty one. The handler raises the same
  error, and the world it leaves differs from the one it found by the single read of the
  clock: no call to the object store, the scan engine or a sink has been made.
\<close>

theorem malformed_event_aborts:
  assumes "first_message env ev = Inr message"
    and "message ''bucket'' = None \<or> message ''bucket'' = Some []
       \<or> message ''key'' = None \<or> message ''key'' = Some []"
  shows "\<exists>e. e \<in> {KeyError ''bucket'', KeyError ''key'',
                  Exception ''Unable to retrieve object from event.''}
           \<and> event_object env ev = Inl e
           \<and> lambda_handler env ev w = (Inl e, w\<lparr>ticks := Suc (ticks w)\<rparr>)
           \<and> calls (snd (lambda_handler env ev w)) = calls w"
proof -
  from assms have "\<exists>e. event_object env ev = Inl e
      \<and> e \<in> {KeyError ''bucket'', KeyError ''key'', Exception ''Unable to retrieve object from event.''}"
    by (auto simp: event_object_def getitem_def unquote_plus_def plus_to_space_def Let_def
        split: option.splits)
  then obtain e where e: "event_object env ev = Inl e"
    "e \<in> {KeyError ''bucket'', KeyError ''key'', Exception ''Unable to retrieve object from event.''}"
    by blast
  from handler_object_error[OF e(1)] e show ?thesis by simp
qed

text \<open>The message of scenario C has no bucket.\<close>

theorem malformed_event_aborts_witness:
  "event_object env_example event_no_bucket = Inl (KeyError ''bucket'')
   \<and> fst (lambda_handler env_example event_no_bucket world_example) = Inl (KeyError ''bucket'')
   \<and> calls (snd (lambda_handler env_example event_no_bucket world_example)) = []"
proof -
  have m: "first_message env_example event_no_bucket = Inr message_no_bucket"
    by (simp add: example_defs decode_defs)
  have b: "message_no_bucket ''bucket'' = None" by (simp add: message_no_bucket_def)
  have o: "event_object env_example event_no_bucket = Inl (KeyError ''bucket'')"
    by (simp add: example_defs decode_defs)
  from malformed_event_aborts[OF m, of world_example] b o show ?thesis
    by (auto simp: world_example_def)
qed

subsection \<open>C7: the decoded key\<close>

text \<open>
  Claim C7, as amended. For every event that \<^verbatim>\<open>event_object\<close> decodes, the key of the
  request is the percent-decoding of the key string of the message in which every \<open>+\<close> has
  first been replaced by a space (\<^verbatim>\<open>unquote_plus\<close>); for a key string without \<open>+\<close> it is
  exactly the percent-decoding of the key string.
\<close>

theorem event_object_key:
  assumes "first_message env ev = Inr message"
    and "message ''key'' = Some k"
    and "event_object env ev = Inr obj"
  shows "key obj = unquote (plus_to_space k) \<and> (CHR ''+'' \<notin> set k \<longrightarrow> key obj = unquote k)"
proof -
  have "CHR ''+'' \<notin> set k \<Longrightarrow> plus_to_space k = k"
    by (induction k) (auto simp: plus_to_space_def)
  with assms show ?thesis
    by (auto simp: event_object_def getitem_def unquote_plus_def Let_def
        split: option.splits if_splits)
qed

theorem event_object_key_witness:
  "key object_full = unquote (plus_to_space ''a+b'') \<and> key object_full = ''a b''"
  using event_object_key[OF first_message_full _ event_object_full, of "''a+b''"]
  by (simp add: message_full_def object_full_def)

text \<open>
  The claim as stated fails on the key \<open>a+b\<close>: the request gets \<open>a b\<close>, and the
  percent-decoding of \<open>a+b\<close> is \<open>a+b\<close>.
\<close>

theorem key_plus_counterexample:
  "first_message env_example event_full = Inr message_full
   \<and> message_full ''key'' = Some ''a+b''
   \<and> event_object env_example event_full = Inr \<lparr>bucket_name = ''b'', key = ''a b''\<rparr>
   \<and> unquote ''a+b'' = ''a+b''"
  by (simp add: example_defs decode_defs)

subsection \<open>C8: the webhook-start request comes first\<close>

text \<open>
  Claim C8. Whenever the object and a webhook URL are decoded from the event, the first call
  of the invocation is the POST to that URL, with an empty body and the credential of the
  message; every other call, the download and the scan among them, comes after it, and none
  repeats it. The URL is the decoded webhook string with every occurrence of \<open>:service\<close>
  replaced by \<open>antivirus\<close>: no \<open>:service\<close> is left in it.
\<close>

theorem webhook_start_first:
  assumes run: "lambda_handler env ev w = (r, w')"
    and obj: "event_object env ev = Inr obj"
    and wh: "event_webhook env ev = Inr (webhook, auth)"
    and msg: "first_message env ev = Inr message"
  shows "(\<exists>raw. message ''webhook'' = Some raw
            \<and> webhook = replace '':service'' ''antivirus'' (unquote_plus raw))
       \<and> message ''auth'' = Some auth
       \<and> \<not> sublist '':service'' webhook
       \<and> (\<exists>rest. calls w' = calls w @ Post webhook [] auth # rest
             \<and> Post webhook [] auth \<notin> set rest)"
proof -
  from wh msg have d: "\<exists>raw. message ''webhook'' = Some raw
      \<and> webhook = replace '':service'' ''antivirus'' (unquote_plus raw)"
    "message ''auth'' = Some auth"
    by (auto simp: event_webhook_def getitem_def Let_def split: option.splits if_splits)
  then have s: "\<not> sublist '':service'' webhook"
    using service_replaced by blast
  let ?fc = "fetch_calls env obj webhook auth"
  let ?post = "Post webhook [] auth"
  have tl: "\<And>n. take (Suc n) ?fc = ?post # take n (tl ?fc)" "?post \<notin> set (tl ?fc)"
    "?fc = ?post # tl ?fc"
    by (simp_all add: fetch_calls_def)
  have tk: "\<And>n. ?post \<notin> set (take n (tl ?fc))"
    using tl(2) by (auto dest: in_set_takeD)
  have pb: "\<And>pub v out. list_all (sink_call env obj v out) pub \<Longrightarrow> ?post \<notin> set pub"
    by (auto simp: list_all_iff sink_call_def publish_call_def)
  have "\<exists>rest. calls w' = calls w @ ?post # rest \<and> ?post \<notin> set rest"
    using handler_outcomes[OF run obj wh]
  proof (elim disjE exE conjE)
    fix e n
    assume "calls w' = calls w @ take (Suc n) ?fc"
    with tk[of n] show ?thesis by (intro exI[of _ "take n (tl ?fc)"]) (simp add: tl(1))
  next
    fix e n
    assume "calls w' = calls w @ take (Suc n) ?fc"
    with tk[of n] show ?thesis by (intro exI[of _ "take n (tl ?fc)"]) (simp add: tl(1))
  next
    fix e pub
    assume a: "calls w' = calls w @ ?fc @ pub"
      "list_all (sink_call env obj (fst (clamscan env (artifact_path obj)))
          (snd (clamscan env (artifact_path obj)))) pub"
    from a(1) tl(3) have "calls w' = calls w @ ?post # (tl ?fc @ pub)"
      by (metis append_Cons)
    with tl(2) pb[OF a(2)] show ?thesis by (intro exI[of _ "tl ?fc @ pub"]) simp
  next
    fix e pub
    let ?ms = "MetricsSend (ENV env) (bucket_name obj) (key obj) (fst (clamscan env (artifact_path obj)))"
    assume a: "calls w' = calls w @ ?fc @ pub @ [?ms]"
      "list_all (sink_call env obj (fst (clamscan env (artifact_path obj)))
          (snd (clamscan env (artifact_path obj)))) pub"
    from a(1) tl(3) have "calls w' = calls w @ ?post # (tl ?fc @ pub @ [?ms])"
      by (metis append_Cons)
    with tl(2) pb[OF a(2)] show ?thesis by (intro exI[of _ "tl ?fc @ pub @ [?ms]"]) simp
  next
    fix pub
    let ?ms = "MetricsSend (ENV env) (bucket_name obj) (key obj) (fst (clamscan env (artifact_path obj)))"
    assume a: "calls w' = calls w @ ?fc @ pub @ [?ms, OsRemove (artifact_path obj)]"
      "list_all (sink_call env obj (fst (clamscan env (artifact_path obj)))
          (snd (clamscan env (artifact_path obj)))) pub"
    from a(1) tl(3)
    have "calls w' = calls w @ ?post # (tl ?fc @ pub @ [?ms, OsRemove (artifact_path obj)])"
      by (metis append_Cons)
    with tl(2) pb[OF a(2)] show ?thesis
      by (intro exI[of _ "tl ?fc @ pub @ [?ms, OsRemove (artifact_path obj)]"]) simp
  qed
  with d s show ?thesis by blast
qed

text \<open>The event of scenario B.\<close>

theorem webhook_start_first_witness:
  "event_webhook env_example event_full = Inr (''https://x/antivirus'', ''tok'')
   \<and> hd (calls (snd (lambda_handler env_example event_full world_example)))
       = Post ''https://x/antivirus'' [] ''tok''
   \<and> \<not> sublist '':service'' ''https://x/antivirus''"
proof -
  from webhook_start_first[of env_example event_full world_example
      "fst (lambda_handler env_example event_full world_example)"
      "snd (lambda_handler env_example event_full world_example)" object_full
      "''https://x/antivirus''" "''tok''" message_full,
      OF _ event_object_full event_webhook_full first_message_full]
  have "\<not> sublist '':service'' ''https://x/antivirus''
     \<and> (\<exists>rest. calls (snd (lambda_handler env_example event_full world_example))
            = Post ''https://x/antivirus'' [] ''tok'' # rest)"
    by (auto simp: world_example_def)
  with event_webhook_full show ?thesis by auto
qed

subsection \<open>C9: the body of the webhook-result request\<close>

text \<open>
  Claim C9. With a webhook URL, \<^verbatim>\<open>webhook_scan_results\<close> makes exactly one call, a PATCH
  to that URL with the credential, whose body has the four fields: filename, the basename of
  the key; is_infected, true exactly when the verdict is \<open>INFECTED\<close>; status, \<open>success\<close>;
  result, \<open>INFECTED: \<close> followed by the diagnostic text when the verdict is \<open>INFECTED\<close> and
  \<open>clean\<close> for every other verdict.
\<close>

theorem webhook_result_body:
  assumes "webhook \<noteq> []"
  shows "calls (snd (webhook_scan_results env obj v out webhook auth w))
       = calls w @ [Patch webhook
           [(''filename'', JStr (basename (key obj))),
            (''is_infected'', JBool (v = ''INFECTED'')),
            (''status'', JStr ''success''),
            (''result'', JStr (if v = ''INFECTED'' then ''INFECTED: '' @ out else ''clean''))]
           auth]"
  using assms by (simp add: webhook_scan_results_def call_ext_def split: option.splits)

text \<open>The request of scenario B.\<close>

theorem webhook_result_body_witness:
  "calls (snd (webhook_scan_results env_example \<lparr>bucket_name = ''b'', key = ''dir/eicar.com''\<rparr>
       ''INFECTED'' ''Eicar-Test-Signature'' ''https://x/antivirus'' ''tok'' world_example))
   = [Patch ''https://x/antivirus''
        [(''filename'', JStr ''eicar.com''), (''is_infected'', JBool True),
         (''status'', JStr ''success''), (''result'', JStr ''INFECTED: Eicar-Test-Signature'')]
        ''tok'']"
  using webhook_result_body[of "''https://x/antivirus''" env_example
      "\<lparr>bucket_name = ''b'', key = ''dir/eicar.com''\<rparr>" "''INFECTED''" "''Eicar-Test-Signature''"
      "''tok''" world_example]
  by (simp add: basename_def world_example_def)

subsection \<open>C10: only the first record is read\<close>

text \<open>
  Claim C10. Both decoding functions read the first record only: on an event with one or
  more records they, and the whole handler, behave as on the event with the later records
  removed. On an event whose list of records is empty, \<^verbatim>\<open>event_object\<close> raises
  \<^verbatim>\<open>IndexError\<close>, and the handler raises it before any call to a collaborator.
\<close>

theorem first_record_only:
  "event_object env (ev\<lparr>Records := r # rs\<rparr>) = event_object env (ev\<lparr>Records := [r]\<rparr>)
   \<and> event_webhook env (ev\<lparr>Records := r # rs\<rparr>) = event_webhook env (ev\<lparr>Records := [r]\<rparr>)
   \<and> lambda_handler env (ev\<lparr>Records := r # rs\<rparr>) w = lambda_handler env (ev\<lparr>Records := [r]\<rparr>) w
   \<and> event_object env (ev\<lparr>Records := []\<rparr>) = Inl IndexError
   \<and> lambda_handler env (ev\<lparr>Records := []\<rparr>) w = (Inl IndexError, w\<lparr>ticks := Suc (ticks w)\<rparr>)
   \<and> calls (snd (lambda_handler env (ev\<lparr>Records := []\<rparr>) w)) = calls w"
proof -
  have o: "event_object env (ev\<lparr>Records := r # rs\<rparr>) = event_object env (ev\<lparr>Records := [r]\<rparr>)"
    by (simp add: event_object_def first_message_def)
  have h: "event_webhook env (ev\<lparr>Records := r # rs\<rparr>) = event_webhook env (ev\<lparr>Records := [r]\<rparr>)"
    by (simp add: event_webhook_def first_message_def)
  have e: "event_object env (ev\<lparr>Records := []\<rparr>) = Inl IndexError"
    by (simp add: event_object_def first_message_def)
  from o h e handler_object_error[OF e, of w] show ?thesis
    by (simp add: lambda_handler_def)
qed

theorem first_record_only_witness:
  "lambda_handler env_example \<lparr>Records = [record_full, record_no_bucket]\<rparr> world_example
     = lambda_handler env_example event_full world_example
   \<and> fst (lambda_handler env_example \<lparr>Records = []\<rparr> world_example) = Inl IndexError"
  using first_record_only[where env = env_example and ev = event_full and r = record_full
      and rs = "[record_no_bucket]" and w = world_example]
  by (simp add: event_full_def)

end
